theory Spec2Isabelle
  imports Complex_Main
begin

section \<open>Value objects of the three.js library\<close>

text \<open>
  The component (second document of \<^verbatim>\<open>src/unnamed/part_000\<close>, the version with undo, redo and
  export) stores every pose in two mutable library objects: a \<^verbatim>\<open>THREE.Vector3\<close> and a
  \<^verbatim>\<open>THREE.Euler\<close> (default order XYZ). JavaScript numbers are modelled as \<^typ>\<open>real\<close>:
  rounding of IEEE doubles, NaN and infinities are not part of the model.
\<close>

datatype Vector3 = Vector3 (vx: real) (vy: real) (vz: real)

datatype Euler = Euler (ex: real) (ey: real) (ez: real)

definition add_v :: "Vector3 \<Rightarrow> Vector3 \<Rightarrow> Vector3" where
  "add_v u v = Vector3 (vx u + vx v) (vy u + vy v) (vz u + vz v)"

definition dot :: "Vector3 \<Rightarrow> Vector3 \<Rightarrow> real" where
  "dot u v = vx u * vx v + vy u * vy v + vz u * vz v"

text \<open>
  \<^verbatim>\<open>Vector3.applyEuler\<close> of three.js rotates the vector by the rotation the Euler angles
  denote. For order XYZ the library's rotation matrix (\<^verbatim>\<open>Matrix4.makeRotationFromEuler\<close>)
  has the entries below; over the reals the quaternion route the library takes gives the
  same vector.
\<close>

definition applyEuler :: "Vector3 \<Rightarrow> Euler \<Rightarrow> Vector3" where
  "applyEuler v e =
     (let a = cos (ex e); b = sin (ex e);
          c = cos (ey e); d = sin (ey e);
          g = cos (ez e); f = sin (ez e)
      in Vector3
           (c * g * vx v - c * f * vy v + d * vz v)
           ((a * f + b * g * d) * vx v + (a * g - b * f * d) * vy v - b * c * vz v)
           ((b * f - a * g * d) * vx v + (b * g + a * f * d) * vy v + a * c * vz v))"

record Ray =
  origin :: Vector3
  direction :: Vector3

record Plane =
  normal :: Vector3
  constant_plane :: real

text \<open>
  \<^verbatim>\<open>Ray.distanceToPlane\<close> and \<^verbatim>\<open>Ray.intersectPlane(plane, target)\<close> of three.js. The
  latter returns \<^verbatim>\<open>null\<close> when there is no intersection and leaves \<^verbatim>\<open>target\<close> as it
  was; otherwise it writes the point into \<^verbatim>\<open>target\<close> and returns it. The model returns
  the pair of the returned value and the final contents of \<^verbatim>\<open>target\<close>.
\<close>

definition distanceToPlane :: "Ray \<Rightarrow> Plane \<Rightarrow> real option" where
  "distanceToPlane ray plane =
     (let denominator = dot (normal plane) (direction ray)
      in if denominator = 0
         then (if dot (normal plane) (origin ray) + constant_plane plane = 0 then Some 0 else None)
         else (let t = - (dot (origin ray) (normal plane) + constant_plane plane) / denominator
               in if t \<ge> 0 then Some t else None))"

definition at_ray :: "Ray \<Rightarrow> real \<Rightarrow> Vector3" where
  "at_ray ray t =
     Vector3 (vx (origin ray) + vx (direction ray) * t)
             (vy (origin ray) + vy (direction ray) * t)
             (vz (origin ray) + vz (direction ray) * t)"

definition intersectPlane :: "Ray \<Rightarrow> Plane \<Rightarrow> Vector3 \<Rightarrow> Vector3 option \<times> Vector3" where
  "intersectPlane ray plane target =
     (case distanceToPlane ray plane of
        None \<Rightarrow> (None, target)
      | Some t \<Rightarrow> (Some (at_ray ray t), at_ray ray t))"

section \<open>Tubes and the component state\<close>

text \<open>
  A \<^verbatim>\<open>Tube\<close> holds its scalars by value and its pose by reference: \<open>position\<close> is the
  address of a \<^verbatim>\<open>Vector3\<close> object, \<open>rotation\<close> the address of an \<^verbatim>\<open>Euler\<close> object.
  The two classes are distinct, so each has a store of its own. The mesh, wireframe and
  highlight mesh belong to the renderer and are left out. Field \<^verbatim>\<open>length\<close> is
  \<open>length_tube\<close> and field \<^verbatim>\<open>id\<close> is \<open>id_tube\<close> here.
\<close>

record Tube =
  width :: real
  height :: real
  thickness :: real
  length_tube :: real
  position :: nat
  rotation :: nat
  id_tube :: string
  isSelected :: bool

text \<open>
  The state of the component: the two object stores with their allocation counters, the
  React state variables (\<open>tubes\<close>, \<open>selectedTube\<close>, \<open>draggedTube\<close>, \<open>history\<close>,
  \<open>historyIndex\<close>) and the refs (\<open>tubesRef\<close>, \<open>draggedTubeRef\<close>). \<open>sceneRef\<close> tells whether
  the mount effect has run; \<^verbatim>\<open>cameraRef\<close> and \<^verbatim>\<open>rendererRef\<close> are set by the same effect
  and share the flag. The camera controls are left out.
\<close>

record state =
  vectors :: "nat \<Rightarrow> Vector3"
  nextVector :: nat
  eulers :: "nat \<Rightarrow> Euler"
  nextEuler :: nat
  sceneRef :: bool
  tubes :: "Tube list"
  selectedTube :: "string option"
  draggedTube :: "string option"
  history :: "Tube list list"
  historyIndex :: int
  tubesRef :: "Tube list"
  draggedTubeRef :: "string option"

text \<open>
  The form values \<^verbatim>\<open>addTube\<close> and \<^verbatim>\<open>exportData\<close> read from the current render. The
  suffix \<open>P\<close> keeps them apart from the fields of \<open>Tube\<close>.
\<close>

record params =
  tubeType :: string
  widthP :: real
  heightP :: real
  thicknessP :: real
  lengthP :: real
  angle :: real
  snapToAngle :: bool

datatype error = TypeError

definition init :: "bool \<Rightarrow> state" where
  "init mounted =
     \<lparr>vectors = (\<lambda>_. Vector3 0 0 0), nextVector = 0,
      eulers = (\<lambda>_. Euler 0 0 0), nextEuler = 0,
      sceneRef = mounted, tubes = [], selectedTube = None, draggedTube = None,
      history = [], historyIndex = - 1, tubesRef = [], draggedTubeRef = None\<rparr>"

subsection \<open>Allocation and \<^verbatim>\<open>Tube.clone\<close>\<close>

definition newVector3 :: "state \<Rightarrow> Vector3 \<Rightarrow> nat \<times> state" where
  "newVector3 st v =
     (nextVector st,
      st\<lparr>vectors := (vectors st)(nextVector st := v), nextVector := Suc (nextVector st)\<rparr>)"

definition newEuler :: "state \<Rightarrow> Euler \<Rightarrow> nat \<times> state" where
  "newEuler st e =
     (nextEuler st,
      st\<lparr>eulers := (eulers st)(nextEuler st := e), nextEuler := Suc (nextEuler st)\<rparr>)"

text \<open>
  \<^verbatim>\<open>clone()\<close>: a new tube with the same scalars, a fresh copy of the position object and a
  fresh copy of the rotation object; \<open>id\<close> and \<open>isSelected\<close> are copied afterwards.
\<close>

definition clone :: "state \<Rightarrow> Tube \<Rightarrow> Tube \<times> state" where
  "clone st t =
     (let (p, st1) = newVector3 st (vectors st (position t));
          (r, st2) = newEuler st1 (eulers st1 (rotation t))
      in (\<lparr>width = width t, height = height t, thickness = thickness t,
           length_tube = length_tube t, position = p, rotation = r,
           id_tube = id_tube t, isSelected = isSelected t\<rparr>, st2))"

fun cloneAll :: "state \<Rightarrow> Tube list \<Rightarrow> Tube list \<times> state" where
  "cloneAll st [] = ([], st)"
| "cloneAll st (t # ts) =
     (let (c, st1) = clone st t; (cs, st2) = cloneAll st1 ts in (c # cs, st2))"

subsection \<open>Angle snapping\<close>

definition snapAngles :: "real list" where
  "snapAngles = [0, 30, 45, 60, 90, 120, 135, 150, 180]"

text \<open>
  \<^verbatim>\<open>reduce\<close> without an initial value starts from the first element and visits the
  others from left to right.
\<close>

definition snapAngleFunc :: "bool \<Rightarrow> real \<Rightarrow> real" where
  "snapAngleFunc snap angleValue =
     (if \<not> snap then angleValue
      else foldl (\<lambda>prev curr. if \<bar>curr - angleValue\<bar> < \<bar>prev - angleValue\<bar> then curr else prev)
             (hd snapAngles) (tl snapAngles))"

subsection \<open>History\<close>

text \<open>\<^verbatim>\<open>xs.slice(0, e)\<close> and \<^verbatim>\<open>xs[i]\<close> of JavaScript arrays (\<open>None\<close> is \<^verbatim>\<open>undefined\<close>).\<close>

definition slice0 :: "'a list \<Rightarrow> int \<Rightarrow> 'a list" where
  "slice0 xs e =
     take (nat (if e < 0 then max (int (length xs) + e) 0 else min e (int (length xs)))) xs"

definition index_js :: "'a list \<Rightarrow> int \<Rightarrow> 'a option" where
  "index_js xs i = (if 0 \<le> i \<and> i < int (length xs) then Some (xs ! nat i) else None)"

text \<open>
  \<^verbatim>\<open>addToHistory\<close> is a closure of one render: it reads the \<open>history\<close> and
  \<open>historyIndex\<close> of the render that created it, here the arguments \<open>hist\<close> and \<open>idx\<close>.
  The state setters are the same in every render.
\<close>

definition addToHistory :: "Tube list list \<Rightarrow> int \<Rightarrow> state \<Rightarrow> Tube list \<Rightarrow> state" where
  "addToHistory hist idx st tubesToSave =
     (let (snapshot, st1) = cloneAll st tubesToSave;
          newHistory = slice0 hist (idx + 1) @ [snapshot]
      in st1\<lparr>history := newHistory, historyIndex := int (length newHistory) - 1\<rparr>)"

definition restoreTube :: "Tube \<Rightarrow> Tube" where
  "restoreTube tubeData =
     \<lparr>width = width tubeData, height = height tubeData, thickness = thickness tubeData,
      length_tube = length_tube tubeData, position = position tubeData,
      rotation = rotation tubeData, id_tube = id_tube tubeData, isSelected = False\<rparr>"

text \<open>
  \<^verbatim>\<open>restoreState(state)\<close>: the new tubes are built on the position and rotation objects of
  the history entry itself. \<^verbatim>\<open>undefined.map\<close> throws.
\<close>

definition restoreState :: "state \<Rightarrow> Tube list option \<Rightarrow> error + state" where
  "restoreState st entry =
     (if \<not> sceneRef st then Inr st
      else case entry of
             None \<Rightarrow> Inl TypeError
           | Some s \<Rightarrow> Inr (st\<lparr>tubes := map restoreTube s\<rparr>))"

definition undo :: "state \<Rightarrow> error + state" where
  "undo st =
     (if historyIndex st > 0
      then (case restoreState st (index_js (history st) (historyIndex st - 1)) of
              Inl e \<Rightarrow> Inl e
            | Inr st1 \<Rightarrow> Inr (st1\<lparr>historyIndex := historyIndex st - 1\<rparr>))
      else Inr st)"

definition redo :: "state \<Rightarrow> error + state" where
  "redo st =
     (if historyIndex st < int (length (history st)) - 1
      then (case restoreState st (index_js (history st) (historyIndex st + 1)) of
              Inl e \<Rightarrow> Inl e
            | Inr st1 \<Rightarrow> Inr (st1\<lparr>historyIndex := historyIndex st + 1\<rparr>))
      else Inr st)"

subsection \<open>Adding, removing, clearing\<close>

text \<open>\<open>newId\<close> is the value \<^verbatim>\<open>Math.random().toString(36).substr(2, 9)\<close> produced.\<close>

definition addTube :: "state \<Rightarrow> params \<Rightarrow> string \<Rightarrow> state" where
  "addTube st p newId =
     (if \<not> sceneRef st then st
      else
        let finalAngle = (if snapToAngle p then snapAngleFunc (snapToAngle p) (angle p) else angle p);
            (pos, st1) = newVector3 st (Vector3 0 0 0);
            (rot, st2) = newEuler st1 (Euler 0 0 0);
            newTube = \<lparr>width = (if tubeType p = ''square'' then widthP p else widthP p),
                       height = (if tubeType p = ''square'' then widthP p else heightP p),
                       thickness = thicknessP p, length_tube = lengthP p,
                       position = pos, rotation = rot, id_tube = newId, isSelected = False\<rparr>;
            st3 = (if length (tubes st) > 0
                   then
                     let lastTube = last (tubes st);
                         angleRad = (finalAngle * pi) / 180;
                         lastRot = eulers st2 (rotation lastTube);
                         jointPosition =
                           add_v (applyEuler (Vector3 0 0 (length_tube lastTube / 2)) lastRot)
                                 (vectors st2 (position lastTube));
                         newRot = Euler (ex lastRot) (ey lastRot + angleRad) (ez lastRot);
                         offsetFromJoint = applyEuler (Vector3 0 0 (length_tube newTube / 2)) newRot
                     in st2\<lparr>eulers := (eulers st2)(rot := newRot),
                            vectors := (vectors st2)(pos := add_v jointPosition offsetFromJoint)\<rparr>
                   else st2);
            newTubesList = tubes st @ [newTube]
        in addToHistory (history st) (historyIndex st) (st3\<lparr>tubes := newTubesList\<rparr>) newTubesList)"

definition removeTube :: "state \<Rightarrow> string \<Rightarrow> state" where
  "removeTube st tubeId =
     (if \<not> sceneRef st then st
      else
        let filteredTubes = filter (\<lambda>t. id_tube t \<noteq> tubeId) (tubes st)
        in case find (\<lambda>t. id_tube t = tubeId) (tubes st) of
             None \<Rightarrow> st
           | Some tube \<Rightarrow>
               addToHistory (history st) (historyIndex st)
                 (st\<lparr>tubes := filteredTubes,
                     selectedTube := (if selectedTube st = Some tubeId then None else selectedTube st)\<rparr>)
                 filteredTubes)"

definition clearAll :: "state \<Rightarrow> state" where
  "clearAll st =
     (if \<not> sceneRef st then st
      else st\<lparr>tubes := [], selectedTube := None, history := [], historyIndex := - 1\<rparr>)"

subsection \<open>Effects of a render\<close>

text \<open>
  After a render whose state changed, two effects run: \<^verbatim>\<open>tubesRef.current = tubes\<close> and
  \<^verbatim>\<open>tube.setSelected(tube.id === selectedTube)\<close> for every tube. The ref holds the same
  tube objects as the state.
\<close>

definition render :: "state \<Rightarrow> state" where
  "render st =
     (let ts = map (\<lambda>tube. tube\<lparr>isSelected := (Some (id_tube tube) = selectedTube st)\<rparr>) (tubes st)
      in st\<lparr>tubes := ts, tubesRef := ts\<rparr>)"

subsection \<open>Pointer events\<close>

text \<open>
  The listeners are created once, by the mount effect (dependency list \<^verbatim>\<open>[]\<close>). They
  reach the tubes through \<open>tubesRef\<close> and the functional form of \<^verbatim>\<open>setTubes\<close>, which
  see the latest value. \<open>hit\<close> is the id of the first mesh the pointer ray meets, and
  \<open>ray\<close> the ray \<^verbatim>\<open>setFromCamera\<close> computed; both come from the renderer. Only a left
  click without shift is modelled; the other buttons move the camera.
\<close>

definition onMouseDown :: "state \<Rightarrow> string option \<Rightarrow> state" where
  "onMouseDown st hit =
     (if \<not> sceneRef st then st
      else case hit of
             Some tubeId \<Rightarrow>
               st\<lparr>selectedTube := Some tubeId, draggedTubeRef := Some tubeId,
                  draggedTube := Some tubeId\<rparr>
           | None \<Rightarrow> st\<lparr>selectedTube := None\<rparr>)"

definition floorPlane :: Plane where
  "floorPlane = \<lparr>normal = Vector3 0 1 0, constant_plane = 0\<rparr>"

text \<open>
  \<^verbatim>\<open>tube.position.copy(intersection)\<close> for every tube whose id is the dragged one; the
  new array holds the same tube objects.
\<close>

definition copyTo :: "string \<Rightarrow> Vector3 \<Rightarrow> (nat \<Rightarrow> Vector3) \<Rightarrow> Tube list \<Rightarrow> nat \<Rightarrow> Vector3" where
  "copyTo d v h ts = foldl (\<lambda>h tube. if id_tube tube = d then h(position tube := v) else h) h ts"

text \<open>
  JavaScript's truthiness of a reference to a \<^verbatim>\<open>Vector3\<close>: an object is truthy whatever
  it holds.
\<close>

definition truthy :: "Vector3 \<Rightarrow> bool" where
  "truthy obj = True"

text \<open>
  The value \<^verbatim>\<open>intersectPlane\<close> returns is dropped; the test \<^verbatim>\<open>if (intersection)\<close> is on
  the \<^verbatim>\<open>Vector3\<close> created just before and passed as target.
\<close>

definition onMouseMove :: "state \<Rightarrow> Ray \<Rightarrow> state" where
  "onMouseMove st ray =
     (if \<not> sceneRef st then st
      else case draggedTubeRef st of
             None \<Rightarrow> st
           | Some d \<Rightarrow>
               let (returned, intersection) = intersectPlane ray floorPlane (Vector3 0 0 0)
               in if truthy intersection
                  then st\<lparr>vectors := copyTo d intersection (vectors st) (tubes st),
                          tubesRef := tubes st\<rparr>
                  else st)"

text \<open>
  The mount effect runs once, so \<^verbatim>\<open>onMouseUp\<close> keeps calling the \<^verbatim>\<open>addToHistory\<close> it
  closed over: that of the first render, in which \<open>history\<close> is \<^verbatim>\<open>[]\<close> and
  \<open>historyIndex\<close> is \<^verbatim>\<open>-1\<close> (the initial values of \<^verbatim>\<open>useState\<close>). The tube list it
  passes comes from \<open>tubesRef\<close> and is the current one.
\<close>

definition onMouseUp :: "state \<Rightarrow> state" where
  "onMouseUp st =
     (let st1 = (if draggedTubeRef st \<noteq> None then addToHistory [] (- 1) st (tubesRef st) else st)
      in st1\<lparr>draggedTubeRef := None, draggedTube := None\<rparr>)"

subsection \<open>Export\<close>

datatype json = JNumber real | JString string | JObject "(string \<times> json) list" | JArray "json list"

text \<open>
  \<^verbatim>\<open>exportData\<close> builds the array \<open>data\<close> and hands its \<^verbatim>\<open>JSON.stringify\<close> text to the
  browser for download; the model returns \<open>data\<close>. \<open>ty\<close> is the form value \<open>tubeType\<close>.
\<close>

definition exportRecord :: "state \<Rightarrow> string \<Rightarrow> Tube \<Rightarrow> json" where
  "exportRecord st ty tube =
     JObject
       [(''type'', JString ty),
        (''width'', JNumber (width tube)),
        (''height'', JNumber (height tube)),
        (''thickness'', JNumber (thickness tube)),
        (''length'', JNumber (length_tube tube)),
        (''position'',
           JObject [(''x'', JNumber (vx (vectors st (position tube)))),
                    (''y'', JNumber (vy (vectors st (position tube)))),
                    (''z'', JNumber (vz (vectors st (position tube))))]),
        (''rotation'',
           JObject [(''x'', JNumber (ex (eulers st (rotation tube)))),
                    (''y'', JNumber (ey (eulers st (rotation tube)))),
                    (''z'', JNumber (ez (eulers st (rotation tube))))])]"

definition exportData :: "state \<Rightarrow> string \<Rightarrow> json list" where
  "exportData st ty = map (exportRecord st ty) (tubes st)"

fun keys_of :: "json \<Rightarrow> string list" where
  "keys_of (JObject kvs) = map fst kvs"
| "keys_of _ = []"

fun field :: "json \<Rightarrow> string \<Rightarrow> json option" where
  "field (JObject kvs) k = map_of kvs k"
| "field _ k = None"

subsection \<open>Sequences of user actions\<close>

text \<open>The initial values of the form (\<^verbatim>\<open>useState(50)\<close>, \<^verbatim>\<open>useState(30)\<close>, ...).\<close>

definition defaultParams :: params where
  "defaultParams =
     \<lparr>tubeType = ''rectangular'', widthP = 50, heightP = 30, thicknessP = 3,
      lengthP = 100, angle = 90, snapToAngle = True\<rparr>"

text \<open>
  Every user action is a handler call followed by a render with its effects. An
  exception thrown by a click handler leaves the state as it was. \<open>Select\<close> is a click
  on an entry of the tube list.
\<close>

datatype event =
    Add params string
  | Remove string
  | Clear
  | Undo
  | Redo
  | Select string
  | MouseDown "string option"
  | MouseMove Ray
  | MouseUp

definition handle :: "state \<Rightarrow> event \<Rightarrow> state" where
  "handle st e =
     (case e of
        Add p newId \<Rightarrow> addTube st p newId
      | Remove tubeId \<Rightarrow> removeTube st tubeId
      | Clear \<Rightarrow> clearAll st
      | Undo \<Rightarrow> (case undo st of Inl _ \<Rightarrow> st | Inr st1 \<Rightarrow> st1)
      | Redo \<Rightarrow> (case redo st of Inl _ \<Rightarrow> st | Inr st1 \<Rightarrow> st1)
      | Select tubeId \<Rightarrow> st\<lparr>selectedTube := Some tubeId\<rparr>
      | MouseDown hit \<Rightarrow> onMouseDown st hit
      | MouseMove ray \<Rightarrow> onMouseMove st ray
      | MouseUp \<Rightarrow> onMouseUp st)"

definition step :: "state \<Rightarrow> event \<Rightarrow> state" where
  "step st e = render (handle st e)"

definition run :: "event list \<Rightarrow> state \<Rightarrow> state" where
  "run es st = foldl step st es"

text \<open>The events the store operations addSegment, removeSegment and clearAll stand for.\<close>

fun isStoreOp :: "event \<Rightarrow> bool" where
  "isStoreOp (Add p newId) = True"
| "isStoreOp (Remove tubeId) = True"
| "isStoreOp Clear = True"
| "isStoreOp _ = False"

text \<open>
  The fields of a tube, with the pose read through the stores, and the assembly as the
  list of them in chain order.
\<close>

definition fieldsOf :: "state \<Rightarrow> Tube \<Rightarrow> string \<times> real \<times> real \<times> real \<times> real \<times> Vector3 \<times> Euler" where
  "fieldsOf st t =
     (id_tube t, width t, height t, thickness t, length_tube t,
      vectors st (position t), eulers st (rotation t))"

definition assembly :: "state \<Rightarrow> (string \<times> real \<times> real \<times> real \<times> real \<times> Vector3 \<times> Euler) list" where
  "assembly st = map (fieldsOf st) (tubes st)"

text \<open>
  Undo until the guard of \<^verbatim>\<open>undo\<close> (and of its button) says there is nothing to undo,
  counting the calls; then redo a given number of times.
\<close>

function undoAll :: "state \<Rightarrow> error + (nat \<times> state)" where
  "undoAll st =
     (if historyIndex st > 0
      then (case undo st of
              Inl e \<Rightarrow> Inl e
            | Inr st1 \<Rightarrow>
                (case undoAll (render st1) of
                   Inl e \<Rightarrow> Inl e
                 | Inr (k, st2) \<Rightarrow> Inr (Suc k, st2)))
      else Inr (0, st))"
  by pat_completeness auto
termination
proof (relation "measure (\<lambda>st. nat (historyIndex st))")
  show "wf (measure (\<lambda>st. nat (historyIndex st)))" by simp
next
  fix st :: state and st1 :: state
  assume pos: "0 < historyIndex st" and u: "undo st = Inr st1"
  from u pos have "historyIndex st1 = historyIndex st - 1"
    by (auto simp: undo_def restoreState_def split: if_splits option.splits sum.splits)
  then have "historyIndex (render st1) = historyIndex st - 1"
    by (simp add: render_def Let_def)
  with pos show "(render st1, st) \<in> measure (\<lambda>st. nat (historyIndex st))"
    by simp
qed

fun redoN :: "nat \<Rightarrow> state \<Rightarrow> error + state" where
  "redoN 0 st = Inr st"
| "redoN (Suc k) st = (case redo st of Inl e \<Rightarrow> Inl e | Inr st1 \<Rightarrow> redoN k (render st1))"

subsection \<open>Predicates of the properties\<close>

text \<open>The dimension invariant of a segment.\<close>

definition validDimensions :: "Tube \<Rightarrow> bool" where
  "validDimensions t =
     (0 < width t \<and> 0 < height t \<and> 0 < thickness t \<and> 0 < length_tube t \<and>
      thickness t < min (width t) (height t) / 2)"

text \<open>Two points agree within \<open>eps\<close> in every coordinate.\<close>

definition nearV :: "real \<Rightarrow> Vector3 \<Rightarrow> Vector3 \<Rightarrow> bool" where
  "nearV eps u v = (\<bar>vx u - vx v\<bar> \<le> eps \<and> \<bar>vy u - vy v\<bar> \<le> eps \<and> \<bar>vz u - vz v\<bar> \<le> eps)"

text \<open>
  Every position object a live tube or a history entry refers to has been allocated, and
  no two tubes of one list share a position object.
\<close>

definition ownPositions :: "nat \<Rightarrow> Tube list \<Rightarrow> bool" where
  "ownPositions n ts = (list_all (\<lambda>t. position t < n) ts \<and> distinct (map position ts))"

definition allocated :: "state \<Rightarrow> bool" where
  "allocated st =
     (ownPositions (nextVector st) (tubes st) \<and>
      list_all (ownPositions (nextVector st)) (history st))"

text \<open>The reducer of \<open>snapAngleFunc\<close>, named for the proofs.\<close>

definition nearer :: "real \<Rightarrow> real \<Rightarrow> real \<Rightarrow> real" where
  "nearer v prev cur = (if \<bar>cur - v\<bar> < \<bar>prev - v\<bar> then cur else prev)"

text \<open>
  What the store operations keep true: the index is at the last entry, every pose
  object of a live tube has been allocated, and the last entry, when there is one, has
  the fields of the live assembly.
\<close>

definition recorded :: "state \<Rightarrow> bool" where
  "recorded st =
     (historyIndex st = int (length (history st)) - 1 \<and>
      list_all (\<lambda>t. position t < nextVector st \<and> rotation t < nextEuler st) (tubes st) \<and>
      (history st \<noteq> [] \<longrightarrow> sceneRef st \<and> map (fieldsOf st) (last (history st)) = assembly st))"

declare undoAll.simps [simp del]

section \<open>Evaluating the handlers on concrete inputs\<close>

lemmas eval_defs = addTube_def addToHistory_def clone_def newVector3_def newEuler_def slice0_def
  init_def Let_def snapAngleFunc_def snapAngles_def defaultParams_def applyEuler_def add_v_def
  render_def step_def run_def handle_def onMouseDown_def onMouseMove_def onMouseUp_def
  copyTo_def intersectPlane_def distanceToPlane_def at_ray_def floorPlane_def dot_def truthy_def
  undo_def redo_def restoreState_def restoreTube_def index_js_def removeTube_def clearAll_def

section \<open>Snapping picks the nearest angle, the first one on a tie\<close>

lemma foldl_nearer_first:
  "sorted (p # xs) \<Longrightarrow>
   foldl (nearer v) p xs \<in> set (p # xs) \<and>
   (\<forall>c \<in> set (p # xs). \<bar>foldl (nearer v) p xs - v\<bar> \<le> \<bar>c - v\<bar> \<and>
       (\<bar>c - v\<bar> = \<bar>foldl (nearer v) p xs - v\<bar> \<longrightarrow> foldl (nearer v) p xs \<le> c))"
proof (induction xs arbitrary: p)
  case Nil
  then show ?case by simp
next
  case (Cons x xs)
  let ?q = "nearer v p x"
  let ?r = "foldl (nearer v) ?q xs"
  have q_cases: "?q = x \<or> ?q = p" by (simp add: nearer_def)
  have sq: "sorted (?q # xs)" using Cons.prems q_cases by auto
  have px: "p \<le> x" using Cons.prems by simp
  note ih = Cons.IH [OF sq]
  have r_q: "\<bar>?r - v\<bar> \<le> \<bar>?q - v\<bar>" "\<bar>?q - v\<bar> = \<bar>?r - v\<bar> \<longrightarrow> ?r \<le> ?q"
    using ih by simp_all
  have q_p: "\<bar>?q - v\<bar> \<le> \<bar>p - v\<bar>" "\<bar>?q - v\<bar> \<le> \<bar>x - v\<bar>"
    by (simp_all add: nearer_def)
  have q_tie: "\<bar>p - v\<bar> = \<bar>?q - v\<bar> \<longrightarrow> ?q = p"
    by (simp add: nearer_def)
  have mem: "?r \<in> set (p # x # xs)" using ih q_cases by auto
  have rest: "\<forall>c \<in> set xs. \<bar>?r - v\<bar> \<le> \<bar>c - v\<bar> \<and> (\<bar>c - v\<bar> = \<bar>?r - v\<bar> \<longrightarrow> ?r \<le> c)"
    using ih by simp
  have forp: "\<bar>?r - v\<bar> \<le> \<bar>p - v\<bar> \<and> (\<bar>p - v\<bar> = \<bar>?r - v\<bar> \<longrightarrow> ?r \<le> p)"
    using r_q q_p q_tie by auto
  have forx: "\<bar>?r - v\<bar> \<le> \<bar>x - v\<bar> \<and> (\<bar>x - v\<bar> = \<bar>?r - v\<bar> \<longrightarrow> ?r \<le> x)"
    using r_q q_p q_cases px forp by auto
  show ?case using mem rest forp forx by simp
qed

lemma snapAngleFunc_nearer: "snapAngleFunc True a = foldl (nearer a) (hd snapAngles) (tl snapAngles)"
  by (simp add: snapAngleFunc_def nearer_def[abs_def])

lemma snap_nearest:
  "snapAngleFunc True a \<in> set snapAngles \<and>
   (\<forall>c \<in> set snapAngles. \<bar>snapAngleFunc True a - a\<bar> \<le> \<bar>c - a\<bar> \<and>
       (\<bar>c - a\<bar> = \<bar>snapAngleFunc True a - a\<bar> \<longrightarrow> snapAngleFunc True a \<le> c))"
proof -
  have s: "sorted (hd snapAngles # tl snapAngles)" by (simp add: snapAngles_def)
  have e: "hd snapAngles # tl snapAngles = snapAngles" by (simp add: snapAngles_def)
  show ?thesis using foldl_nearer_first [OF s, of a] unfolding snapAngleFunc_nearer e .
qed

lemma snap_idem: "snapAngleFunc True (snapAngleFunc True a) = snapAngleFunc True a"
proof -
  let ?s = "snapAngleFunc True a"
  have "?s \<in> set snapAngles" using snap_nearest by blast
  then have "\<bar>snapAngleFunc True ?s - ?s\<bar> \<le> \<bar>?s - ?s\<bar>" using snap_nearest [of ?s] by blast
  then show ?thesis by simp
qed

lemma addTube_snapped:
  "snapToAngle p \<Longrightarrow> addTube st (p\<lparr>angle := a\<rparr>) newId = addTube st (p\<lparr>angle := snapAngleFunc True a\<rparr>) newId"
  by (simp add: addTube_def snap_idem)

section \<open>Cloning allocates fresh pose objects\<close>

lemma clone_shape:
  "clone st t =
     (t\<lparr>position := nextVector st, rotation := nextEuler st\<rparr>,
      st\<lparr>vectors := (vectors st)(nextVector st := vectors st (position t)),
         nextVector := Suc (nextVector st),
         eulers := (eulers st)(nextEuler st := eulers st (rotation t)),
         nextEuler := Suc (nextEuler st)\<rparr>)"
  by (simp add: clone_def newVector3_def newEuler_def)

lemma cloneAll_frame:
  "cloneAll st ts = (cs, st') \<Longrightarrow>
   nextVector st' = nextVector st + length ts \<and> nextEuler st' = nextEuler st + length ts \<and>
   sceneRef st' = sceneRef st \<and> tubes st' = tubes st \<and> selectedTube st' = selectedTube st \<and>
   draggedTube st' = draggedTube st \<and> history st' = history st \<and>
   historyIndex st' = historyIndex st \<and> tubesRef st' = tubesRef st \<and>
   draggedTubeRef st' = draggedTubeRef st \<and> length cs = length ts"
proof (induction ts arbitrary: st cs st')
  case Nil
  then show ?case by auto
next
  case (Cons t ts)
  obtain c st1 where c: "clone st t = (c, st1)" by (cases "clone st t")
  obtain cs1 st2 where r: "cloneAll st1 ts = (cs1, st2)" by (cases "cloneAll st1 ts")
  from Cons.prems c r have st': "st' = st2" "cs = c # cs1" by simp_all
  from c have "st1 = st\<lparr>vectors := (vectors st)(nextVector st := vectors st (position t)),
         nextVector := Suc (nextVector st),
         eulers := (eulers st)(nextEuler st := eulers st (rotation t)),
         nextEuler := Suc (nextEuler st)\<rparr>" by (simp add: clone_shape)
  with Cons.IH [OF r] st' show ?case by simp
qed

lemma cloneAll_stores:
  "cloneAll st ts = (cs, st') \<Longrightarrow>
   (\<forall>a < nextVector st. vectors st' a = vectors st a) \<and>
   (\<forall>a < nextEuler st. eulers st' a = eulers st a)"
proof (induction ts arbitrary: st cs st')
  case Nil
  then show ?case by auto
next
  case (Cons t ts)
  obtain c st1 where c: "clone st t = (c, st1)" by (cases "clone st t")
  obtain cs1 st2 where r: "cloneAll st1 ts = (cs1, st2)" by (cases "cloneAll st1 ts")
  from Cons.prems c r have st': "st' = st2" by simp
  from c have st1: "st1 = st\<lparr>vectors := (vectors st)(nextVector st := vectors st (position t)),
         nextVector := Suc (nextVector st),
         eulers := (eulers st)(nextEuler st := eulers st (rotation t)),
         nextEuler := Suc (nextEuler st)\<rparr>" by (simp add: clone_shape)
  from Cons.IH [OF r] st' st1 show ?case by simp
qed

lemma cloneAll_fields:
  "cloneAll st ts = (cs, st') \<Longrightarrow>
   list_all (\<lambda>t. position t < nextVector st \<and> rotation t < nextEuler st) ts \<Longrightarrow>
   map (fieldsOf st') cs = map (fieldsOf st) ts"
proof (induction ts arbitrary: st cs st')
  case Nil
  then show ?case by auto
next
  case (Cons t ts)
  obtain c st1 where c: "clone st t = (c, st1)" by (cases "clone st t")
  obtain cs1 st2 where r: "cloneAll st1 ts = (cs1, st2)" by (cases "cloneAll st1 ts")
  from Cons.prems c r have st': "st' = st2" "cs = c # cs1" by simp_all
  from c have st1: "st1 = st\<lparr>vectors := (vectors st)(nextVector st := vectors st (position t)),
         nextVector := Suc (nextVector st),
         eulers := (eulers st)(nextEuler st := eulers st (rotation t)),
         nextEuler := Suc (nextEuler st)\<rparr>"
    and cc: "c = t\<lparr>position := nextVector st, rotation := nextEuler st\<rparr>"
    by (simp_all add: clone_shape)
  have b1: "list_all (\<lambda>t. position t < nextVector st1 \<and> rotation t < nextEuler st1) ts"
    using Cons.prems(2) st1 by (auto simp: list_all_iff)
  have keep: "\<forall>a < nextVector st1. vectors st2 a = vectors st1 a"
             "\<forall>a < nextEuler st1. eulers st2 a = eulers st1 a"
    using cloneAll_stores [OF r] by simp_all
  have hd: "fieldsOf st2 c = fieldsOf st t"
    using keep st1 cc by (simp add: fieldsOf_def)
  have "map (fieldsOf st1) ts = map (fieldsOf st) ts"
    using Cons.prems(2) st1 by (auto simp: fieldsOf_def list_all_iff)
  with Cons.IH [OF r b1] hd st' show ?case by simp
qed

lemma cloneAll_positions:
  "cloneAll st ts = (cs, st') \<Longrightarrow>
   map position cs = [nextVector st ..< nextVector st + length ts]"
proof (induction ts arbitrary: st cs st')
  case Nil
  then show ?case by auto
next
  case (Cons t ts)
  obtain c st1 where c: "clone st t = (c, st1)" by (cases "clone st t")
  obtain cs1 st2 where r: "cloneAll st1 ts = (cs1, st2)" by (cases "cloneAll st1 ts")
  from Cons.prems c r have cs: "cs = c # cs1" by simp
  from c have "position c = nextVector st" "nextVector st1 = Suc (nextVector st)"
    by (auto simp: clone_shape)
  with Cons.IH [OF r] cs show ?case by (simp add: upt_rec)
qed

section \<open>Tubes of one list never share a position object\<close>

lemma ownPositions_mono: "ownPositions n ts \<Longrightarrow> n \<le> m \<Longrightarrow> ownPositions m ts"
  by (auto simp: ownPositions_def list_all_iff)

lemma ownPositions_iff:
  "ownPositions n ts \<longleftrightarrow> (\<forall>a \<in> set (map position ts). a < n) \<and> distinct (map position ts)"
  by (auto simp: ownPositions_def list_all_iff)

lemma ownPositions_map:
  "map position us = map position ts \<Longrightarrow> ownPositions n ts \<Longrightarrow> ownPositions n us"
  unfolding ownPositions_iff by simp

lemma ownPositions_filter: "ownPositions n ts \<Longrightarrow> ownPositions n (filter P ts)"
  by (auto simp: ownPositions_def list_all_iff distinct_map_filter)

lemma ownPositions_clones:
  "cloneAll st ts = (cs, st') \<Longrightarrow> ownPositions (nextVector st') cs"
proof -
  assume c: "cloneAll st ts = (cs, st')"
  have p: "map position cs = [nextVector st ..< nextVector st + length ts]"
    by (rule cloneAll_positions [OF c])
  have n: "nextVector st' = nextVector st + length ts" using cloneAll_frame [OF c] by simp
  have "list_all (\<lambda>a. a < nextVector st') (map position cs)" unfolding p n by (simp add: list_all_iff)
  moreover have "distinct (map position cs)" unfolding p by simp
  ultimately show ?thesis by (simp add: ownPositions_def list_all_iff)
qed

lemma slice0_subset: "set (slice0 xs e) \<subseteq> set xs"
  by (simp add: slice0_def set_take_subset)

lemma addToHistory_tubes:
  "tubes (addToHistory hist idx st ts) = tubes st \<and> sceneRef (addToHistory hist idx st ts) = sceneRef st
   \<and> selectedTube (addToHistory hist idx st ts) = selectedTube st
   \<and> tubesRef (addToHistory hist idx st ts) = tubesRef st
   \<and> draggedTubeRef (addToHistory hist idx st ts) = draggedTubeRef st
   \<and> draggedTube (addToHistory hist idx st ts) = draggedTube st"
proof -
  obtain cs st1 where c: "cloneAll st ts = (cs, st1)" by (cases "cloneAll st ts")
  from cloneAll_frame [OF c] c show ?thesis by (simp add: addToHistory_def)
qed

lemma addToHistory_allocated:
  assumes "ownPositions (nextVector st) (tubes st)" "list_all (ownPositions (nextVector st)) hist"
  shows "allocated (addToHistory hist idx st ts)"
proof -
  obtain cs st1 where c: "cloneAll st ts = (cs, st1)" by (cases "cloneAll st ts")
  have fr: "nextVector st1 = nextVector st + length ts" "tubes st1 = tubes st"
    using cloneAll_frame [OF c] by simp_all
  have le: "nextVector st \<le> nextVector st1" using fr by simp
  have r: "addToHistory hist idx st ts =
      st1\<lparr>history := slice0 hist (idx + 1) @ [cs],
          historyIndex := int (length (slice0 hist (idx + 1) @ [cs])) - 1\<rparr>"
    using c by (simp add: addToHistory_def)
  have a: "ownPositions (nextVector st1) (tubes st1)"
    using assms(1) le fr ownPositions_mono by simp
  have b: "list_all (ownPositions (nextVector st1)) (slice0 hist (idx + 1))"
    unfolding list_all_iff
  proof
    fix x assume "x \<in> set (slice0 hist (idx + 1))"
    then have "x \<in> set hist" using slice0_subset [of hist "idx + 1"] by blast
    then have "ownPositions (nextVector st) x" using assms(2) by (simp add: list_all_iff)
    then show "ownPositions (nextVector st1) x" using le by (rule ownPositions_mono)
  qed
  have d: "ownPositions (nextVector st1) cs" by (rule ownPositions_clones [OF c])
  show ?thesis unfolding r using a b d by (simp add: allocated_def)
qed

lemma allocated_init: "allocated (init m)"
  by (simp add: allocated_def init_def ownPositions_def)

lemma allocated_render: "allocated st \<Longrightarrow> allocated (render st)"
proof -
  assume a: "allocated st"
  have "map position (map (\<lambda>tube. tube\<lparr>isSelected := (Some (id_tube tube) = selectedTube st)\<rparr>) (tubes st))
        = map position (tubes st)" by simp
  from ownPositions_map [OF this] a show ?thesis by (simp add: allocated_def render_def Let_def)
qed

lemma allocated_addTube: "allocated st \<Longrightarrow> allocated (addTube st p newId)"
proof (cases "sceneRef st")
  case False
  assume "allocated st"
  with False show ?thesis by (simp add: addTube_def)
next
  case True
  assume a: "allocated st"
  have new: "ownPositions (Suc (nextVector st)) (tubes st @ [t\<lparr>position := nextVector st\<rparr>])" for t :: Tube
    using a by (auto simp: allocated_def ownPositions_def list_all_iff)
  have hist: "list_all (ownPositions (Suc (nextVector st))) (history st)"
    using a ownPositions_mono [of "nextVector st" _ "Suc (nextVector st)"]
    by (auto simp: allocated_def list_all_iff)
  show ?thesis using True
    apply (simp add: addTube_def Let_def newVector3_def newEuler_def)
    apply (intro conjI impI addToHistory_allocated)
    using new [of "\<lparr>width = widthP p, height = (if tubeType p = ''square'' then widthP p else heightP p),
        thickness = thicknessP p, length_tube = lengthP p, position = 0, rotation = nextEuler st,
        id_tube = newId, isSelected = False\<rparr>"] hist
    by (simp_all split: if_splits)
qed

lemma allocated_removeTube: "allocated st \<Longrightarrow> allocated (removeTube st tubeId)"
proof -
  assume a: "allocated st"
  have f: "ownPositions (nextVector st) (filter (\<lambda>t. id_tube t \<noteq> tubeId) (tubes st))"
    using a by (simp add: allocated_def ownPositions_filter)
  have h: "list_all (ownPositions (nextVector st)) (history st)" using a by (simp add: allocated_def)
  show ?thesis
    using a f h by (auto simp: removeTube_def Let_def split: option.splits intro!: addToHistory_allocated)
qed

lemma allocated_clearAll: "allocated st \<Longrightarrow> allocated (clearAll st)"
  by (simp add: clearAll_def allocated_def ownPositions_def)

lemma allocated_restore:
  assumes "allocated st" "index_js (history st) i = Some s"
  shows "allocated (st\<lparr>tubes := map restoreTube s, historyIndex := j\<rparr>)"
proof -
  from assms(2) have "s \<in> set (history st)" by (auto simp: index_js_def split: if_splits)
  with assms(1) have o: "ownPositions (nextVector st) s" by (simp add: allocated_def list_all_iff)
  have "map position (map restoreTube s) = map position s" by (simp add: restoreTube_def)
  from ownPositions_map [OF this o] assms(1) show ?thesis by (simp add: allocated_def)
qed

lemma allocated_index: "allocated st \<Longrightarrow> allocated (st\<lparr>historyIndex := j\<rparr>)"
  by (simp add: allocated_def)

lemma allocated_undo: "allocated st \<Longrightarrow> undo st = Inr st1 \<Longrightarrow> allocated st1"
  by (auto simp: undo_def restoreState_def split: if_splits option.splits sum.splits
           intro: allocated_restore allocated_index)

lemma allocated_redo: "allocated st \<Longrightarrow> redo st = Inr st1 \<Longrightarrow> allocated st1"
  by (auto simp: redo_def restoreState_def split: if_splits option.splits sum.splits
           intro: allocated_restore allocated_index)

lemma allocated_onMouseDown: "allocated st \<Longrightarrow> allocated (onMouseDown st hit)"
  by (simp add: onMouseDown_def allocated_def split: option.splits)

lemma allocated_onMouseMove: "allocated st \<Longrightarrow> allocated (onMouseMove st ray)"
  by (simp add: onMouseMove_def truthy_def allocated_def Let_def split: option.splits prod.splits)

lemma allocated_onMouseUp: "allocated st \<Longrightarrow> allocated (onMouseUp st)"
proof -
  assume a: "allocated st"
  have "allocated (addToHistory [] (- 1) st (tubesRef st))"
    using a by (intro addToHistory_allocated) (simp_all add: allocated_def)
  with a show ?thesis by (simp add: onMouseUp_def Let_def allocated_def)
qed

lemma allocated_handle: "allocated st \<Longrightarrow> allocated (handle st e)"
  by (cases e)
     (auto simp: handle_def allocated_def [of "st\<lparr>selectedTube := _\<rparr>"] split: sum.splits
           intro: allocated_addTube allocated_removeTube allocated_clearAll allocated_undo
                  allocated_redo allocated_onMouseDown allocated_onMouseMove allocated_onMouseUp
           simp: allocated_def [of st, symmetric])

lemma allocated_run: "allocated st \<Longrightarrow> allocated (run es st)"
  unfolding run_def
  by (induction es arbitrary: st) (simp_all add: step_def allocated_handle allocated_render)

lemma copyTo_at:
  "copyTo d v h ts a = (if a \<in> position ` {u \<in> set ts. id_tube u = d} then v else h a)"
  unfolding copyTo_def
  by (induction ts arbitrary: h) auto

lemma onMouseMove_frame:
  "tubes (onMouseMove st ray) = tubes st \<and> eulers (onMouseMove st ray) = eulers st"
  by (simp add: onMouseMove_def truthy_def Let_def split: option.splits prod.splits)

lemma onMouseMove_others:
  assumes "distinct (map position (tubes st))" "t \<in> set (tubes st)"
    "Some (id_tube t) \<noteq> draggedTubeRef st"
  shows "vectors (onMouseMove st ray) (position t) = vectors st (position t)"
proof (cases "sceneRef st \<and> draggedTubeRef st \<noteq> None")
  case False
  then show ?thesis by (auto simp: onMouseMove_def)
next
  case True
  then obtain d where d: "draggedTubeRef st = Some d" by auto
  have inj: "inj_on position (set (tubes st))" using assms(1) by (simp add: distinct_map)
  have "position t \<notin> position ` {u \<in> set (tubes st). id_tube u = d}"
  proof
    assume "position t \<in> position ` {u \<in> set (tubes st). id_tube u = d}"
    then obtain u where u: "u \<in> set (tubes st)" "id_tube u = d" "position t = position u" by auto
    with inj assms(2) have "t = u" by (auto dest: inj_onD)
    with u assms(3) d show False by simp
  qed
  then show ?thesis using True d
    by (simp add: onMouseMove_def truthy_def Let_def copyTo_at split: prod.splits)
qed

section \<open>The store operations keep the last entry equal to the assembly\<close>

lemma fieldsOf_stores:
  "vectors a = vectors b \<Longrightarrow> eulers a = eulers b \<Longrightarrow> fieldsOf a = fieldsOf b"
  by (auto simp: fieldsOf_def fun_eq_iff)

lemma assembly_render: "assembly (render st) = assembly st"
  by (simp add: assembly_def render_def Let_def fieldsOf_def)

lemma recorded_render: "recorded st \<Longrightarrow> recorded (render st)"
proof -
  assume r: "recorded st"
  have f: "fieldsOf (render st) = fieldsOf st"
    by (rule fieldsOf_stores) (simp_all add: render_def Let_def)
  have b: "list_all (\<lambda>t. position t < nextVector st \<and> rotation t < nextEuler st) (tubes (render st))"
    using r by (simp add: recorded_def render_def Let_def list_all_iff)
  have o: "history (render st) = history st" "historyIndex (render st) = historyIndex st"
     "sceneRef (render st) = sceneRef st" "nextVector (render st) = nextVector st"
     "nextEuler (render st) = nextEuler st"
    by (simp_all add: render_def Let_def)
  show ?thesis using r b unfolding recorded_def o f assembly_render by simp
qed

lemma recorded_addToHistory:
  assumes ts: "tubes st = ts" and sc: "sceneRef st"
    and b: "list_all (\<lambda>t. position t < nextVector st \<and> rotation t < nextEuler st) ts"
  shows "recorded (addToHistory hist idx st ts)"
proof -
  obtain cs st1 where c: "cloneAll st ts = (cs, st1)" by (cases "cloneAll st ts")
  note fr = cloneAll_frame [OF c]
  have r: "addToHistory hist idx st ts =
      st1\<lparr>history := slice0 hist (idx + 1) @ [cs],
          historyIndex := int (length (slice0 hist (idx + 1) @ [cs])) - 1\<rparr>"
    using c by (simp add: addToHistory_def)
  have keep: "map (fieldsOf st1) ts = map (fieldsOf st) ts"
    using b cloneAll_stores [OF c] by (auto simp: fieldsOf_def list_all_iff)
  have snap: "map (fieldsOf st1) cs = map (fieldsOf st) ts" by (rule cloneAll_fields [OF c b])
  have b1: "list_all (\<lambda>t. position t < nextVector st1 \<and> rotation t < nextEuler st1) ts"
    using b fr by (auto simp: list_all_iff)
  have f: "fieldsOf (st1\<lparr>history := h, historyIndex := i\<rparr>) = fieldsOf st1" for h i
    by (rule fieldsOf_stores) simp_all
  show ?thesis unfolding r recorded_def assembly_def f
    using fr ts sc keep snap b1 by simp
qed

lemma recorded_init: "recorded (init m)"
  by (simp add: recorded_def init_def)

lemma recorded_addTube: "recorded st \<Longrightarrow> recorded (addTube st p newId)"
proof (cases "sceneRef st")
  case False
  assume "recorded st"
  with False show ?thesis by (simp add: addTube_def)
next
  case True
  assume r: "recorded st"
  then have b: "list_all (\<lambda>t. position t < nextVector st \<and> rotation t < nextEuler st) (tubes st)"
    by (simp add: recorded_def)
  show ?thesis using True b
    apply (simp add: addTube_def Let_def newVector3_def newEuler_def)
    apply (intro conjI impI recorded_addToHistory)
    by (auto simp: list_all_iff less_Suc_eq)
qed

lemma recorded_removeTube: "recorded st \<Longrightarrow> recorded (removeTube st tubeId)"
proof -
  assume r: "recorded st"
  then have b: "list_all (\<lambda>t. position t < nextVector st \<and> rotation t < nextEuler st) (tubes st)"
    by (simp add: recorded_def)
  show ?thesis using r b
    by (auto simp: removeTube_def Let_def list_all_iff split: option.splits
             intro!: recorded_addToHistory)
qed

lemma recorded_clearAll: "recorded st \<Longrightarrow> recorded (clearAll st)"
  by (auto simp: clearAll_def recorded_def)

lemma recorded_run: "list_all isStoreOp es \<Longrightarrow> recorded st \<Longrightarrow> recorded (run es st)"
  unfolding run_def
proof (induction es arbitrary: st)
  case Nil
  then show ?case by simp
next
  case (Cons e es)
  from Cons.prems have "recorded (handle st e)"
    by (cases e) (simp_all add: handle_def recorded_addTube recorded_removeTube recorded_clearAll)
  then have "recorded (step st e)" by (simp add: step_def recorded_render)
  with Cons show ?case by simp
qed


lemma undo_restores:
  assumes "sceneRef st" "0 < historyIndex st" "historyIndex st \<le> int (length (history st))"
  shows "undo st = Inr (st\<lparr>tubes := map restoreTube (history st ! nat (historyIndex st - 1)),
                            historyIndex := historyIndex st - 1\<rparr>)"
  using assms by (simp add: undo_def restoreState_def index_js_def)

lemma redo_restores:
  assumes "sceneRef st" "- 1 \<le> historyIndex st" "historyIndex st < int (length (history st)) - 1"
  shows "redo st = Inr (st\<lparr>tubes := map restoreTube (history st ! nat (historyIndex st + 1)),
                            historyIndex := historyIndex st + 1\<rparr>)"
  using assms by (simp add: redo_def restoreState_def index_js_def)

lemma undoAll_exhausts:
  "sceneRef st \<Longrightarrow> historyIndex st = int n \<Longrightarrow> historyIndex st \<le> int (length (history st)) \<Longrightarrow>
   \<exists>st'. undoAll st = Inr (n, st') \<and> history st' = history st \<and> vectors st' = vectors st \<and>
         eulers st' = eulers st \<and> sceneRef st' \<and> historyIndex st' = 0"
proof (induction n arbitrary: st)
  case 0
  then show ?case by (simp add: undoAll.simps [of st])
next
  case (Suc n)
  let ?s1 = "st\<lparr>tubes := map restoreTube (history st ! nat (historyIndex st - 1)),
                 historyIndex := historyIndex st - 1\<rparr>"
  have pos: "0 < historyIndex st" using Suc.prems by simp
  have u: "undo st = Inr ?s1" by (rule undo_restores [OF Suc.prems(1) pos Suc.prems(3)])
  have r: "sceneRef (render ?s1)" "historyIndex (render ?s1) = int n"
    "history (render ?s1) = history st" "vectors (render ?s1) = vectors st"
    "eulers (render ?s1) = eulers st"
    using Suc.prems by (simp_all add: render_def Let_def)
  have "historyIndex (render ?s1) \<le> int (length (history (render ?s1)))"
    using Suc.prems r by simp
  from Suc.IH [OF r(1) r(2) this] obtain st' where
    st': "undoAll (render ?s1) = Inr (n, st')" "history st' = history st" "vectors st' = vectors st"
      "eulers st' = eulers st" "sceneRef st'" "historyIndex st' = 0"
    using r by auto
  have "undoAll st = Inr (Suc n, st')"
    using pos u st'(1) by (simp add: undoAll.simps [of st])
  with st' show ?case by simp
qed

lemma redoN_restores:
  "sceneRef st \<Longrightarrow> - 1 \<le> historyIndex st \<Longrightarrow>
   historyIndex st + int k \<le> int (length (history st)) - 1 \<Longrightarrow>
   \<exists>st'. redoN k st = Inr st' \<and> history st' = history st \<and> vectors st' = vectors st \<and>
         eulers st' = eulers st \<and> sceneRef st' \<and> historyIndex st' = historyIndex st + int k \<and>
         (0 < k \<longrightarrow> assembly st' =
                      map (fieldsOf st) (history st ! nat (historyIndex st + int k)))"
proof (induction k arbitrary: st)
  case 0
  then show ?case by simp
next
  case (Suc k)
  let ?s1 = "st\<lparr>tubes := map restoreTube (history st ! nat (historyIndex st + 1)),
                 historyIndex := historyIndex st + 1\<rparr>"
  have lt: "historyIndex st < int (length (history st)) - 1" using Suc.prems by simp
  have rd: "redo st = Inr ?s1" by (rule redo_restores [OF Suc.prems(1) Suc.prems(2) lt])
  have r: "sceneRef (render ?s1)" "historyIndex (render ?s1) = historyIndex st + 1"
    "history (render ?s1) = history st" "vectors (render ?s1) = vectors st"
    "eulers (render ?s1) = eulers st"
    using Suc.prems by (simp_all add: render_def Let_def)
  have f: "fieldsOf (render ?s1) = fieldsOf st" by (rule fieldsOf_stores) (simp_all add: r)
  have a1: "assembly (render ?s1) = map (fieldsOf st) (history st ! nat (historyIndex st + 1))"
    unfolding assembly_render by (simp add: assembly_def fieldsOf_def restoreTube_def)
  have p2: "- 1 \<le> historyIndex (render ?s1)" using Suc.prems r by simp
  have p3: "historyIndex (render ?s1) + int k \<le> int (length (history (render ?s1))) - 1"
    using Suc.prems r by simp
  from Suc.IH [OF r(1) p2 p3] obtain st' where
    st': "redoN k (render ?s1) = Inr st'" "history st' = history st" "vectors st' = vectors st"
      "eulers st' = eulers st" "sceneRef st'" "historyIndex st' = historyIndex st + 1 + int k"
      "0 < k \<longrightarrow> assembly st' = map (fieldsOf st) (history st ! nat (historyIndex st + 1 + int k))"
    unfolding r f by auto
  have k0: "k = 0 \<Longrightarrow> st' = render ?s1" using st'(1) by simp
  have "assembly st' = map (fieldsOf st) (history st ! nat (historyIndex st + int (Suc k)))"
  proof (cases k)
    case 0
    with k0 a1 show ?thesis by simp
  next
    case (Suc j)
    have e: "historyIndex st + 1 + int k = historyIndex st + int (Suc k)" by simp
    from Suc st'(7) have "assembly st' =
        map (fieldsOf st) (history st ! nat (historyIndex st + 1 + int k))" by blast
    then show ?thesis unfolding e .
  qed
  moreover have "redoN (Suc k) st = Inr st'" using rd st'(1) by simp
  ultimately show ?case using st' by simp
qed

section \<open>Removing a tube that is not there\<close>

lemma find_None_no_id:
  "(\<forall>t \<in> set ts. id_tube t \<noteq> tubeId) \<Longrightarrow> find (\<lambda>t. id_tube t = tubeId) ts = None"
  by (simp add: find_None_iff)

text \<open>
  Claim C10. \<^verbatim>\<open>removeTube\<close> with an id that no tube of the assembly has returns the state
  it was given: the tube list, the selection, the history and its index are all as
  before, and no history entry is pushed.
\<close>

theorem removeTube_unknown_id_unchanged:
  assumes "\<forall>t \<in> set (tubes st). id_tube t \<noteq> tubeId"
  shows "removeTube st tubeId = st"
  using find_None_no_id [OF assms] by (simp add: removeTube_def)


theorem removeTube_unknown_id_unchanged_witness:
  "map id_tube (tubes (addTube (init True) defaultParams ''a'')) = [''a''] \<and>
   removeTube (addTube (init True) defaultParams ''a'') ''b'' =
     addTube (init True) defaultParams ''a''"
proof -
  have ids: "map id_tube (tubes (addTube (init True) defaultParams ''a'')) = [''a'']"
    by (simp add: eval_defs)
  have "\<forall>t \<in> set (tubes (addTube (init True) defaultParams ''a'')). id_tube t \<noteq> ''b''"
    by (simp add: eval_defs)
  from removeTube_unknown_id_unchanged [OF this] ids show ?thesis by simp
qed

section \<open>A drag move without an intersection\<close>

lemma drag_without_intersection_moves_to_origin:
  assumes "sceneRef st" "draggedTubeRef st = Some d" "distanceToPlane ray floorPlane = None"
    "t \<in> set (tubes st)" "id_tube t = d"
  shows "vectors (onMouseMove st ray) (position t) = Vector3 0 0 0"
  using assms by (auto simp: onMouseMove_def truthy_def intersectPlane_def copyTo_at)

text \<open>
  Claim C5 says that a drag move whose ray is parallel to the floor plane leaves the
  dragged tube where it is. The code does not: one tube is added and dragged to
  \<open>(10, 0, 20)\<close>; the next move has a ray parallel to the plane, \<^verbatim>\<open>intersectPlane\<close>
  returns \<^verbatim>\<open>null\<close>, and the tube's position becomes \<open>(0, 0, 0)\<close>, the untouched
  contents of the target vector.
\<close>

theorem drag_parallel_ray_jumps_to_origin:
  "let st0 = run [Add defaultParams ''a'', MouseDown (Some ''a''),
                  MouseMove \<lparr>origin = Vector3 10 5 20, direction = Vector3 0 (- 1) 0\<rparr>]
               (init True);
       parallel = \<lparr>origin = Vector3 0 5 0, direction = Vector3 1 0 0\<rparr>;
       st1 = onMouseMove st0 parallel
   in fst (intersectPlane parallel floorPlane (Vector3 0 0 0)) = None \<and>
      draggedTubeRef st0 = Some ''a'' \<and>
      map (\<lambda>t. vectors st0 (position t)) (tubes st0) = [Vector3 10 0 20] \<and>
      map (\<lambda>t. vectors st1 (position t)) (tubes st1) = [Vector3 0 0 0]"
  by (simp add: eval_defs)

section \<open>History entries and the live tubes after a restore\<close>

text \<open>
  Claim C1 says that no live tube shares a position or rotation object with a history
  entry, after a restore as well. The code does not keep this: after two additions and
  one undo the live tube has the very position and rotation objects of the first history
  entry, and dragging it to \<open>(10, 0, 20)\<close> changes the position stored in that entry
  from \<open>(0, 0, 0)\<close> to \<open>(10, 0, 20)\<close>, while the history itself was not written.
\<close>

theorem restore_shares_pose_objects_with_history:
  "let st0 = run [Add defaultParams ''a'', Add defaultParams ''b'', Undo] (init True);
       st1 = run [MouseDown (Some ''a''),
                  MouseMove \<lparr>origin = Vector3 10 5 20, direction = Vector3 0 (- 1) 0\<rparr>] st0
   in historyIndex st0 = 0 \<and>
      map position (tubes st0) = map position (history st0 ! 0) \<and>
      map rotation (tubes st0) = map rotation (history st0 ! 0) \<and>
      history st1 = history st0 \<and>
      map (\<lambda>t. vectors st0 (position t)) (history st0 ! 0) = [Vector3 0 0 0] \<and>
      map (\<lambda>t. vectors st1 (position t)) (history st1 ! 0) = [Vector3 10 0 20]"
  by (simp add: eval_defs)

section \<open>The history after a drag\<close>

lemma release_leaves_one_entry:
  assumes "draggedTubeRef st \<noteq> None"
  shows "length (history (onMouseUp st)) = 1 \<and> historyIndex (onMouseUp st) = 0"
proof -
  obtain cs st1 where c: "cloneAll st (tubesRef st) = (cs, st1)"
    by (cases "cloneAll st (tubesRef st)")
  then show ?thesis using assms by (simp add: onMouseUp_def addToHistory_def slice0_def)
qed

lemma move_writes_no_entry:
  "history (onMouseMove st ray) = history st \<and> historyIndex (onMouseMove st ray) = historyIndex st"
  by (simp add: onMouseMove_def truthy_def Let_def split: option.splits prod.splits)

text \<open>
  Claim C8 says that releasing a drag appends exactly one history entry. The code does
  not append: with two entries in the history, a drag of the second tube (one move, then
  release) leaves a history of one entry with the index at 0; the two earlier entries
  are gone. The move itself writes no entry, and the drag session is cleared.
\<close>

theorem drag_release_replaces_history:
  "let st0 = run [Add defaultParams ''a'', Add defaultParams ''b''] (init True);
       st1 = run [MouseDown (Some ''b''),
                  MouseMove \<lparr>origin = Vector3 10 5 20, direction = Vector3 0 (- 1) 0\<rparr>] st0;
       st2 = run [MouseUp] st1
   in length (history st0) = 2 \<and> historyIndex st0 = 1 \<and>
      history st1 = history st0 \<and> historyIndex st1 = 1 \<and>
      length (history st2) = 1 \<and> historyIndex st2 = 0 \<and>
      draggedTubeRef st2 = None \<and> draggedTube st2 = None"
  by (simp add: eval_defs)

section \<open>Angle snapping in \<^verbatim>\<open>addTube\<close>\<close>

text \<open>
  Claim C3, as the spec words it, has angle 37 snap to 45. On the code 37 snaps to 30
  (distance 7 against 8): placed after a first tube, angle 37 gives yaw \<open>pi / 6\<close> and
  angle 45 gives yaw \<open>pi / 4\<close>, two different poses.
\<close>

theorem snap_37_is_not_45:
  "let stA = run [Add defaultParams ''a''] (init True);
       s37 = run [Add (defaultParams\<lparr>angle := 37\<rparr>) ''b''] stA;
       s45 = run [Add (defaultParams\<lparr>angle := 45\<rparr>) ''b''] stA
   in eulers s37 (rotation (last (tubes s37))) = Euler 0 (pi / 6) 0 \<and>
      eulers s45 (rotation (last (tubes s45))) = Euler 0 (pi / 4) 0 \<and>
      eulers s37 (rotation (last (tubes s37))) \<noteq> eulers s45 (rotation (last (tubes s45)))"
  by (simp add: eval_defs)

text \<open>
  Claim C3, amended. With snapping enabled the angle is replaced by a value of the snap
  set that is nearest to it, and among the values at that same distance by the smallest,
  which is the first one met in ascending order; \<^verbatim>\<open>addTube\<close> with the angle and with
  its snapped value give the same state. Angle 37 is replaced by 30 and angle 15, at
  equal distance from 0 and 30, by 0.
\<close>

theorem snap_nearest_first_on_tie:
  "snapAngleFunc True a \<in> set snapAngles \<and>
   (\<forall>c \<in> set snapAngles.
      \<bar>snapAngleFunc True a - a\<bar> \<le> \<bar>c - a\<bar> \<and>
      (\<bar>c - a\<bar> = \<bar>snapAngleFunc True a - a\<bar> \<longrightarrow> snapAngleFunc True a \<le> c)) \<and>
   (snapToAngle p \<longrightarrow>
      addTube st (p\<lparr>angle := a\<rparr>) newId = addTube st (p\<lparr>angle := snapAngleFunc True a\<rparr>) newId) \<and>
   snapAngleFunc True 37 = 30 \<and> snapAngleFunc True 15 = 0"
proof -
  have "snapAngleFunc True 37 = 30" "snapAngleFunc True 15 = 0"
    by (simp_all add: snapAngleFunc_def snapAngles_def)
  then show ?thesis using snap_nearest [of a] addTube_snapped [of p st a newId] by blast
qed

theorem snap_nearest_first_on_tie_witness:
  "snapAngleFunc True 15 \<in> set snapAngles \<and>
   \<bar>snapAngleFunc True 15 - 15\<bar> \<le> \<bar>30 - 15\<bar> \<and>
   snapAngleFunc True 15 \<le> 30 \<and>
   snapToAngle defaultParams \<and>
   addTube (run [Add defaultParams ''a''] (init True)) (defaultParams\<lparr>angle := 15\<rparr>) ''b'' =
     addTube (run [Add defaultParams ''a''] (init True))
       (defaultParams\<lparr>angle := snapAngleFunc True 15\<rparr>) ''b''"
proof -
  have s: "snapToAngle defaultParams" by (simp add: defaultParams_def)
  have m: "(30::real) \<in> set snapAngles" by (simp add: snapAngles_def)
  have t: "\<bar>(30::real) - 15\<bar> = \<bar>snapAngleFunc True 15 - 15\<bar>"
    by (simp add: snapAngleFunc_def snapAngles_def)
  from snap_nearest_first_on_tie
         [of 15 defaultParams "run [Add defaultParams ''a''] (init True)" "''b''"] s m t
  show ?thesis by blast
qed

section \<open>The pose of a second tube joined at a right angle\<close>

text \<open>
  Claim C4, as the spec words it, puts the second tube near \<open>(0, 0, 150)\<close>. On the code
  its position is \<open>(50, 0, 50)\<close>, which is not within 1 of \<open>(0, 0, 150)\<close> in every
  coordinate.
\<close>

theorem second_tube_not_at_0_0_150:
  "let st = run [Add defaultParams ''a'', Add defaultParams ''b''] (init True);
       b = last (tubes st)
   in vectors st (position b) = Vector3 50 0 50 \<and>
      \<not> nearV 1 (vectors st (position b)) (Vector3 0 0 150)"
  by (simp add: eval_defs nearV_def)

text \<open>
  Claim C4, amended. From the empty assembly, a first tube of length 100 gets the default
  pose (position at the origin, identity rotation), and a second tube of length 100 added
  at a joint angle of 90 degrees gets position \<open>(50, 0, 50)\<close> and yaw \<open>pi / 2\<close>, which is
  90 degrees. Over the reals the values are exact.
\<close>

theorem second_tube_at_right_angle:
  assumes "lengthP pA = 100" "lengthP pB = 100" "angle pB = 90"
  shows "let st = run [Add pA idA, Add pB idB] (init True);
             a = hd (tubes st); b = last (tubes st)
         in length (tubes st) = 2 \<and>
            vectors st (position a) = Vector3 0 0 0 \<and> eulers st (rotation a) = Euler 0 0 0 \<and>
            vectors st (position b) = Vector3 50 0 50 \<and>
            eulers st (rotation b) = Euler 0 (pi / 2) 0 \<and>
            ey (eulers st (rotation b)) * 180 / pi = 90"
  using assms by (simp add: eval_defs)

theorem second_tube_at_right_angle_witness:
  "lengthP defaultParams = 100 \<and> angle defaultParams = 90 \<and>
   (let st = run [Add defaultParams ''a'', Add defaultParams ''b''] (init True);
        a = hd (tubes st); b = last (tubes st)
    in length (tubes st) = 2 \<and>
       vectors st (position a) = Vector3 0 0 0 \<and> eulers st (rotation a) = Euler 0 0 0 \<and>
       vectors st (position b) = Vector3 50 0 50 \<and>
       eulers st (rotation b) = Euler 0 (pi / 2) 0 \<and>
       ey (eulers st (rotation b)) * 180 / pi = 90)"
proof -
  have l: "lengthP defaultParams = 100" and a: "angle defaultParams = 90"
    by (simp_all add: defaultParams_def)
  from second_tube_at_right_angle [OF l l a, of "''a''" "''b''"] l a show ?thesis by blast
qed

section \<open>Dimensions are not validated\<close>

text \<open>
  Claim C6, as the spec words it, has construction fail when the thickness is not below
  half of the smaller side. On the code a tube of width 50, height 30 and thickness 20
  is built and enters the assembly.
\<close>

theorem thick_tube_enters_assembly:
  "let st = run [Add (defaultParams\<lparr>thicknessP := 20\<rparr>) ''a''] (init True)
   in length (tubes st) = 1 \<and>
      width (hd (tubes st)) = 50 \<and> height (hd (tubes st)) = 30 \<and>
      thickness (hd (tubes st)) = 20 \<and> \<not> validDimensions (hd (tubes st))"
  by (simp add: eval_defs validDimensions_def)

text \<open>
  Claim C6, amended. Construction checks nothing and never fails: once the scene is
  mounted, \<^verbatim>\<open>addTube\<close> appends, for every set of construction parameters, one tube with
  exactly the given width, thickness and length, and the given height (the width for
  the square type), whether or not they satisfy the dimension invariant.
\<close>

theorem addTube_appends_unchecked:
  assumes "sceneRef st"
  shows "\<exists>t. tubes (addTube st p newId) = tubes st @ [t] \<and>
     width t = widthP p \<and>
     height t = (if tubeType p = ''square'' then widthP p else heightP p) \<and>
     thickness t = thicknessP p \<and> length_tube t = lengthP p \<and> id_tube t = newId"
  using assms by (simp add: addTube_def Let_def newVector3_def newEuler_def addToHistory_tubes)

theorem addTube_appends_unchecked_witness:
  "sceneRef (init True) \<and>
   (\<exists>t. tubes (addTube (init True) (defaultParams\<lparr>thicknessP := 20\<rparr>) ''a'') =
           tubes (init True) @ [t] \<and>
        width t = widthP (defaultParams\<lparr>thicknessP := 20\<rparr>) \<and>
        height t = heightP (defaultParams\<lparr>thicknessP := 20\<rparr>) \<and>
        thickness t = 20 \<and> \<not> validDimensions t)"
proof -
  have s: "sceneRef (init True)" by (simp add: init_def)
  from addTube_appends_unchecked [OF s, of "defaultParams\<lparr>thicknessP := 20\<rparr>" "''a''"]
  obtain t where t: "tubes (addTube (init True) (defaultParams\<lparr>thicknessP := 20\<rparr>) ''a'') =
           tubes (init True) @ [t]"
      "width t = widthP (defaultParams\<lparr>thicknessP := 20\<rparr>)"
      "height t = (if tubeType (defaultParams\<lparr>thicknessP := 20\<rparr>) = ''square''
                   then widthP (defaultParams\<lparr>thicknessP := 20\<rparr>)
                   else heightP (defaultParams\<lparr>thicknessP := 20\<rparr>))"
      "thickness t = thicknessP (defaultParams\<lparr>thicknessP := 20\<rparr>)"
    by blast
  have "height t = heightP (defaultParams\<lparr>thicknessP := 20\<rparr>)" "thickness t = 20"
    using t(3,4) by (simp_all add: defaultParams_def)
  moreover from this t(2) have "\<not> validDimensions t"
    by (simp add: validDimensions_def defaultParams_def)
  ultimately show ?thesis using s t(1,2) by blast
qed

section \<open>The exported records\<close>

text \<open>
  Claim C7, as the spec words it, allows six fields and no others. On the code every
  record starts with a seventh field, \<open>type\<close>.
\<close>

theorem export_record_has_type_field:
  "let st = run [Add defaultParams ''a''] (init True);
       r = exportData st ''rectangular'' ! 0
   in keys_of r =
        [''type'', ''width'', ''height'', ''thickness'', ''length'', ''position'', ''rotation''] \<and>
      ''type'' \<in> set (keys_of r) \<and>
      ''type'' \<notin> {''width'', ''height'', ''thickness'', ''length'', ''position'', ''rotation''}"
  by (simp add: eval_defs exportData_def exportRecord_def)

text \<open>
  Claim C7, amended. For an assembly of N tubes the export has exactly N records, in
  chain order; record \<open>i\<close> has exactly the fields type, width, height, thickness, length,
  position and rotation, where type is the tube type of the form, the four scalars are
  those of tube \<open>i\<close>, and position and rotation are objects of the fields x, y, z with
  the values of the pose of tube \<open>i\<close>.
\<close>

theorem export_one_record_per_tube:
  "length (exportData st ty) = length (tubes st) \<and>
   (\<forall>i < length (tubes st).
      keys_of (exportData st ty ! i) =
        [''type'', ''width'', ''height'', ''thickness'', ''length'', ''position'', ''rotation''] \<and>
      field (exportData st ty ! i) ''type'' = Some (JString ty) \<and>
      field (exportData st ty ! i) ''width'' = Some (JNumber (width (tubes st ! i))) \<and>
      field (exportData st ty ! i) ''height'' = Some (JNumber (height (tubes st ! i))) \<and>
      field (exportData st ty ! i) ''thickness'' = Some (JNumber (thickness (tubes st ! i))) \<and>
      field (exportData st ty ! i) ''length'' = Some (JNumber (length_tube (tubes st ! i))) \<and>
      field (exportData st ty ! i) ''position'' =
        Some (JObject [(''x'', JNumber (vx (vectors st (position (tubes st ! i))))),
                       (''y'', JNumber (vy (vectors st (position (tubes st ! i))))),
                       (''z'', JNumber (vz (vectors st (position (tubes st ! i)))))]) \<and>
      field (exportData st ty ! i) ''rotation'' =
        Some (JObject [(''x'', JNumber (ex (eulers st (rotation (tubes st ! i))))),
                       (''y'', JNumber (ey (eulers st (rotation (tubes st ! i))))),
                       (''z'', JNumber (ez (eulers st (rotation (tubes st ! i)))))]))"
  by (simp add: exportData_def exportRecord_def)

theorem export_one_record_per_tube_witness:
  "length (tubes (run [Add defaultParams ''a'', Add defaultParams ''b''] (init True))) = 2 \<and>
   length (exportData (run [Add defaultParams ''a'', Add defaultParams ''b''] (init True))
             ''rectangular'') = 2 \<and>
   field (exportData (run [Add defaultParams ''a'', Add defaultParams ''b''] (init True))
            ''rectangular'' ! 1) ''position'' =
     Some (JObject [(''x'', JNumber 50), (''y'', JNumber 0), (''z'', JNumber 50)])"
proof -
  let ?st = "run [Add defaultParams ''a'', Add defaultParams ''b''] (init True)"
  have n: "length (tubes ?st) = 2" by (simp add: eval_defs)
  then have i: "1 < length (tubes ?st)" by simp
  have v: "vectors ?st (position (tubes ?st ! 1)) = Vector3 50 0 50" by (simp add: eval_defs)
  from export_one_record_per_tube [of ?st "''rectangular''"] i
  have "length (exportData ?st ''rectangular'') = length (tubes ?st)"
    "field (exportData ?st ''rectangular'' ! 1) ''position'' =
        Some (JObject [(''x'', JNumber (vx (vectors ?st (position (tubes ?st ! 1))))),
                       (''y'', JNumber (vy (vectors ?st (position (tubes ?st ! 1))))),
                       (''z'', JNumber (vz (vectors ?st (position (tubes ?st ! 1)))))])"
    by blast+
  then show ?thesis unfolding v n by simp
qed

section \<open>What a drag move changes\<close>

text \<open>
  Claim C9. In every state the component reaches from its initial state, a drag move
  event changes no tube record (width, height, thickness, length, id and the references
  to the pose objects stay as they are) and no rotation object; and the position of
  every tube whose id is not the dragged one is the same after the event as before.
\<close>

theorem drag_move_changes_only_dragged_position:
  "let st = run es (init m); st' = onMouseMove st ray
   in tubes st' = tubes st \<and> eulers st' = eulers st \<and>
      (\<forall>t \<in> set (tubes st). Some (id_tube t) \<noteq> draggedTubeRef st \<longrightarrow>
          vectors st' (position t) = vectors st (position t))"
proof -
  have "allocated (run es (init m))" by (rule allocated_run [OF allocated_init])
  then have "distinct (map position (tubes (run es (init m))))"
    by (simp add: allocated_def ownPositions_def)
  then show ?thesis using onMouseMove_frame onMouseMove_others by (simp add: Let_def)
qed

theorem drag_move_changes_only_dragged_position_witness:
  "let st = run [Add defaultParams ''a'', Add defaultParams ''b'', MouseDown (Some ''b'')]
              (init True);
       st' = onMouseMove st \<lparr>origin = Vector3 10 5 20, direction = Vector3 0 (- 1) 0\<rparr>
   in draggedTubeRef st = Some ''b'' \<and> map id_tube (tubes st) = [''a'', ''b''] \<and>
      tubes st' = tubes st \<and> eulers st' = eulers st \<and>
      vectors st' (position (tubes st ! 0)) = vectors st (position (tubes st ! 0)) \<and>
      vectors st (position (tubes st ! 1)) = Vector3 50 0 50 \<and>
      vectors st' (position (tubes st ! 1)) = Vector3 10 0 20"
proof -
  let ?st = "run [Add defaultParams ''a'', Add defaultParams ''b'', MouseDown (Some ''b'')]
               (init True)"
  let ?ray = "\<lparr>origin = Vector3 10 5 20, direction = Vector3 0 (- 1) 0\<rparr>"
  have d: "draggedTubeRef ?st = Some ''b''" and ids: "map id_tube (tubes ?st) = [''a'', ''b'']"
    by (simp_all add: eval_defs)
  then have a: "tubes ?st ! 0 \<in> set (tubes ?st)" "Some (id_tube (tubes ?st ! 0)) \<noteq> draggedTubeRef ?st"
    by (simp_all add: eval_defs)
  have b: "vectors ?st (position (tubes ?st ! 1)) = Vector3 50 0 50"
    "vectors (onMouseMove ?st ?ray) (position (tubes ?st ! 1)) = Vector3 10 0 20"
    by (simp_all add: eval_defs)
  from drag_move_changes_only_dragged_position
         [of "[Add defaultParams ''a'', Add defaultParams ''b'', MouseDown (Some ''b'')]" True ?ray]
  have "tubes (onMouseMove ?st ?ray) = tubes ?st" "eulers (onMouseMove ?st ?ray) = eulers ?st"
    "\<forall>t \<in> set (tubes ?st). Some (id_tube t) \<noteq> draggedTubeRef ?st \<longrightarrow>
        vectors (onMouseMove ?st ?ray) (position t) = vectors ?st (position t)"
    by (simp_all add: Let_def)
  with a b d ids show ?thesis unfolding Let_def by blast
qed

section \<open>Undo to the first entry, then redo as many times\<close>

text \<open>
  Claim C2. After any finite sequence of addSegment, removeSegment and clearAll
  operations from the empty assembly, undoing until there is nothing left to undo (\<open>k\<close>
  calls, none of which fails) and then redoing \<open>k\<close> times (none of which fails) gives an
  assembly with the same fields as before the undos: ids, dimensions, positions,
  rotations, in the same order.
\<close>

theorem undo_all_redo_all_restores_assembly:
  assumes "list_all isStoreOp es"
  shows "\<exists>k s1 s2. undoAll (run es (init m)) = Inr (k, s1) \<and> \<not> 0 < historyIndex s1 \<and>
            redoN k s1 = Inr s2 \<and> assembly s2 = assembly (run es (init m))"
proof -
  let ?st = "run es (init m)"
  have rec: "recorded ?st" by (rule recorded_run [OF assms recorded_init])
  show ?thesis
  proof (cases "0 < historyIndex ?st")
    case False
    then have "undoAll ?st = Inr (0, ?st)" by (simp add: undoAll.simps [of ?st])
    with False show ?thesis by simp
  next
    case True
    define n where "n = nat (historyIndex ?st)"
    have idx: "historyIndex ?st = int n" "0 < n" using True by (simp_all add: n_def)
    have len: "historyIndex ?st = int (length (history ?st)) - 1"
      using rec by (simp add: recorded_def)
    have ne: "history ?st \<noteq> []" using len True by auto
    have sc: "sceneRef ?st" and lastf: "map (fieldsOf ?st) (last (history ?st)) = assembly ?st"
      using rec ne by (simp_all add: recorded_def)
    have "historyIndex ?st \<le> int (length (history ?st))" using len by simp
    from undoAll_exhausts [OF sc idx(1) this] obtain s1 where
      s1: "undoAll ?st = Inr (n, s1)" "history s1 = history ?st" "vectors s1 = vectors ?st"
        "eulers s1 = eulers ?st" "sceneRef s1" "historyIndex s1 = 0"
      by blast
    have q2: "- 1 \<le> historyIndex s1" using s1 by simp
    have q3: "historyIndex s1 + int n \<le> int (length (history s1)) - 1" using s1 idx len by simp
    from redoN_restores [OF s1(5) q2 q3] obtain s2 where
      s2: "redoN n s1 = Inr s2"
        "0 < n \<longrightarrow> assembly s2 = map (fieldsOf s1) (history s1 ! nat (historyIndex s1 + int n))"
      by blast
    have f: "fieldsOf s1 = fieldsOf ?st" by (rule fieldsOf_stores) (simp_all add: s1)
    have "nat (historyIndex s1 + int n) = length (history ?st) - 1" using s1 idx len by simp
    then have "history s1 ! nat (historyIndex s1 + int n) = last (history ?st)"
      using ne s1 by (simp add: last_conv_nth)
    with s2(2) idx f lastf have "assembly s2 = assembly ?st" by simp
    with s1(1,6) s2(1) show ?thesis by auto
  qed
qed

theorem undo_all_redo_all_restores_assembly_witness:
  "list_all isStoreOp [Add defaultParams ''a'', Add defaultParams ''b'', Remove ''a''] \<and>
   historyIndex (run [Add defaultParams ''a'', Add defaultParams ''b'', Remove ''a''] (init True)) = 2 \<and>
   (\<exists>k s1 s2.
      undoAll (run [Add defaultParams ''a'', Add defaultParams ''b'', Remove ''a''] (init True)) =
        Inr (k, s1) \<and> \<not> 0 < historyIndex s1 \<and>
      redoN k s1 = Inr s2 \<and>
      assembly s2 =
        assembly (run [Add defaultParams ''a'', Add defaultParams ''b'', Remove ''a''] (init True)))"
proof -
  have o: "list_all isStoreOp [Add defaultParams ''a'', Add defaultParams ''b'', Remove ''a'']"
    by simp
  have i: "historyIndex (run [Add defaultParams ''a'', Add defaultParams ''b'', Remove ''a'']
             (init True)) = 2"
    by (simp add: eval_defs)
  from undo_all_redo_all_restores_assembly [OF o, of True] o i show ?thesis by blast
qed

end
